theory Spec2Isabelle
  imports Complex_Main "HOL-Library.Multiset"
begin

section \<open>JavaScript objects with string keys and string values\<close>

text \<open>
  The mapping of the value mapper is a plain JavaScript object of type
  \<^verbatim>\<open>Record<string, string>\<close>. An object is modelled by the list of its own
  properties in the order in which they were created; the keys of an object are
  distinct. What a program can observe of the order is the result of
  \<^verbatim>\<open>Object.entries\<close>, \<^verbatim>\<open>Object.keys\<close>, \<^verbatim>\<open>Object.values\<close> and of the spread
  \<^verbatim>\<open>{...obj}\<close>, which all enumerate the own property keys as ECMAScript orders them:
  first the keys that are array indices (the canonical decimal form of an integer
  between 0 and 2^32 - 2), in ascending numeric order, then every other string key
  in order of creation.
\<close>

type_synonym js_object = "(string \<times> string) list"

definition isDigit :: "char \<Rightarrow> bool" where
  "isDigit c = (c \<in> set ''0123456789'')"

definition digitValue :: "char \<Rightarrow> nat" where
  "digitValue c = of_char c - 48"

definition decimalValue :: "string \<Rightarrow> nat" where
  "decimalValue s = foldl (\<lambda>n c. 10 * n + digitValue c) 0 s"

definition isArrayIndex :: "string \<Rightarrow> bool" where
  "isArrayIndex s =
     (case s of
        [] \<Rightarrow> False
      | c # cs \<Rightarrow>
          list_all isDigit s \<and> (if c = CHR ''0'' then cs = [] else True) \<and>
          decimalValue s \<le> 4294967294)"

definition Object_entries :: "js_object \<Rightarrow> (string \<times> string) list" where
  "Object_entries obj =
     sort_key (\<lambda>p. decimalValue (fst p)) (filter (\<lambda>p. isArrayIndex (fst p)) obj) @
     filter (\<lambda>p. \<not> isArrayIndex (fst p)) obj"

definition Object_keys :: "js_object \<Rightarrow> string list" where
  "Object_keys obj = map fst (Object_entries obj)"

definition Object_values :: "js_object \<Rightarrow> string list" where
  "Object_values obj = map snd (Object_entries obj)"

text \<open>\<^verbatim>\<open>xs.includes(x)\<close> on an array of strings.\<close>

definition array_includes :: "string list \<Rightarrow> string \<Rightarrow> bool" where
  "array_includes xs x = (x \<in> set xs)"

text \<open>
  The spread \<^verbatim>\<open>{...obj}\<close> creates a new object and copies the own properties of
  \<^verbatim>\<open>obj\<close> into it in enumeration order.
\<close>

definition spread :: "js_object \<Rightarrow> js_object" where
  "spread obj = Object_entries obj"

text \<open>
  A computed property \<^verbatim>\<open>[k]: v\<close> in an object literal, after a spread: the value of
  an existing property is replaced where it stands, a new property is created last.
\<close>

fun defineProperty :: "js_object \<Rightarrow> string \<Rightarrow> string \<Rightarrow> js_object" where
  "defineProperty [] k v = [(k, v)]"
| "defineProperty (p # ps) k v =
     (if fst p = k then (k, v) # ps else p # defineProperty ps k v)"

text \<open>\<^verbatim>\<open>delete obj[k]\<close>; deleting a key that is not there does nothing.\<close>

definition deleteProperty :: "js_object \<Rightarrow> string \<Rightarrow> js_object" where
  "deleteProperty obj k = filter (\<lambda>p. fst p \<noteq> k) obj"

text \<open>The property read \<^verbatim>\<open>obj[k]\<close>, \<open>None\<close> for \<^verbatim>\<open>undefined\<close>.\<close>

definition getProperty :: "js_object \<Rightarrow> string \<Rightarrow> string option" where
  "getProperty obj k = map_of obj k"

text \<open>
  \<^verbatim>\<open>omit(obj, keys)\<close> of the utilities: a copy of \<^verbatim>\<open>obj\<close> from which each of
  \<^verbatim>\<open>keys\<close> is deleted in turn.
\<close>

definition omit :: "js_object \<Rightarrow> string list \<Rightarrow> js_object" where
  "omit obj keys = fold (\<lambda>key result. deleteProperty result key) keys (spread obj)"


section \<open>The mapping store\<close>

record Connection =
  conn_id :: string
  source :: string
  target :: string

datatype NodeType = Source | Target

text \<open>
  The three refs of the store: the mapping of the host application, and the drag
  state. \<^verbatim>\<open>dragSource\<close> has type \<^verbatim>\<open>string | null\<close>.
\<close>

record store =
  mapping :: js_object
  isDragging :: bool
  dragSource :: "string option"

definition createStore :: "js_object \<Rightarrow> store" where
  "createStore m = \<lparr>mapping = m, isDragging = False, dragSource = None\<rparr>"

definition connections :: "store \<Rightarrow> Connection list" where
  "connections st =
     map (\<lambda>(s, t). \<lparr>conn_id = s @ ''->'' @ t, source = s, target = t\<rparr>)
       (Object_entries (mapping st))"

definition addConnection :: "string \<Rightarrow> string \<Rightarrow> store \<Rightarrow> store" where
  "addConnection s t st = st\<lparr>mapping := defineProperty (spread (mapping st)) s t\<rparr>"

definition removeConnection :: "string \<Rightarrow> store \<Rightarrow> store" where
  "removeConnection s st = st\<lparr>mapping := omit (mapping st) [s]\<rparr>"

definition startConnection :: "string \<Rightarrow> store \<Rightarrow> store" where
  "startConnection sourceId st = st\<lparr>isDragging := True, dragSource := Some sourceId\<rparr>"

text \<open>
  The test \<^verbatim>\<open>if (dragSource.value)\<close> is a test of truthiness: \<^verbatim>\<open>null\<close> and the
  empty string are both falsy.
\<close>

definition endConnection :: "string \<Rightarrow> store \<Rightarrow> store" where
  "endConnection targetId st =
     (let st' = (case dragSource st of
                   None \<Rightarrow> st
                 | Some d \<Rightarrow> if d = [] then st else addConnection d targetId st)
      in st'\<lparr>isDragging := False, dragSource := None\<rparr>)"

definition cancelConnection :: "store \<Rightarrow> store" where
  "cancelConnection st = st\<lparr>isDragging := False, dragSource := None\<rparr>"

definition hasConnection :: "string \<Rightarrow> NodeType \<Rightarrow> store \<Rightarrow> bool" where
  "hasConnection nodeId nodeType st =
     (if nodeType = Source then array_includes (Object_keys (mapping st)) nodeId
      else array_includes (Object_values (mapping st)) nodeId)"

text \<open>Sequences of calls of the store's commands.\<close>

datatype command =
    AddConnection string string
  | RemoveConnection string
  | StartConnection string
  | EndConnection string
  | CancelConnection

fun exec :: "command \<Rightarrow> store \<Rightarrow> store" where
  "exec (AddConnection s t) st = addConnection s t st"
| "exec (RemoveConnection s) st = removeConnection s st"
| "exec (StartConnection s) st = startConnection s st"
| "exec (EndConnection t) st = endConnection t st"
| "exec CancelConnection st = cancelConnection st"

fun run :: "command list \<Rightarrow> store \<Rightarrow> store" where
  "run [] st = st"
| "run (c # cs) st = run cs (exec c st)"


section \<open>JavaScript numbers\<close>

text \<open>
  The coordinates are JavaScript numbers: IEEE 754 double precision values. A number
  is \<open>NaN\<close>, an infinity (\<open>Infinity True\<close> is the negative one), the negative zero, or
  a finite value given by the rational it denotes (\<open>Finite 0\<close> is the positive zero).
  The values of the type that a program can hold are those that rounding leaves
  unchanged (\<open>isDouble\<close>). Every arithmetic operation computes the exact result and
  rounds it to the nearest double, ties to the even significand.
\<close>

datatype number = NaN | Infinity bool | NegZero | Finite rat

text \<open>
  \<open>digitCount b n\<close> is the number of digits of \<open>n\<close> in base \<open>b\<close>, and
  \<open>floorLog b q\<close> the integer \<open>e\<close> with \<open>b^e \<le> q < b^(e+1)\<close>, for a positive \<open>q\<close>.
\<close>

function digitCount :: "int \<Rightarrow> int \<Rightarrow> int" where
  "digitCount b n = (if n \<le> 0 \<or> b < 2 then 0 else digitCount b (n div b) + 1)"
  by pat_completeness auto
termination
  by (relation "measure (\<lambda>(b, n). nat n)") (auto intro!: int_div_less_self)

definition floorLog :: "int \<Rightarrow> rat \<Rightarrow> int" where
  "floorLog b q =
     (if 1 \<le> q then digitCount b \<lfloor>q\<rfloor> - 1
      else - digitCount b (\<lceil>1 / q\<rceil> - 1))"

definition pow :: "rat \<Rightarrow> int \<Rightarrow> rat" where
  "pow b e = (if 0 \<le> e then b ^ nat e else 1 / b ^ nat (- e))"

text \<open>The nearest integer, the even one of the two when they are equally near.\<close>

definition roundTiesToEven :: "rat \<Rightarrow> int" where
  "roundTiesToEven x =
     (let f = \<lfloor>x\<rfloor>; d = x - of_int f
      in if d < 1 / 2 then f else if 1 / 2 < d then f + 1 else if even f then f else f + 1)"

text \<open>
  Rounding to a double: 53 bits of significand, the exponent of the last bit at least
  \<open>-1074\<close> (below the normal range the spacing is constant), an infinity from
  \<open>2^1024\<close> on. A non-zero value that rounds to zero keeps its sign.
\<close>

definition roundToDouble :: "rat \<Rightarrow> number" where
  "roundToDouble r =
     (if r = 0 then Finite 0
      else
        let e = max (floorLog 2 \<bar>r\<bar> - 52) (- 1074);
            m = roundTiesToEven (\<bar>r\<bar> / pow 2 e)
        in if m = 0 then (if r < 0 then NegZero else Finite 0)
           else if 1025 \<le> digitCount 2 m + e then Infinity (r < 0)
           else Finite (sgn r * of_int m * pow 2 e))"

definition isDouble :: "number \<Rightarrow> bool" where
  "isDouble x = (case x of Finite q \<Rightarrow> roundToDouble q = Finite q | _ \<Rightarrow> True)"

fun isNegative :: "number \<Rightarrow> bool" where
  "isNegative NaN = False"
| "isNegative (Infinity s) = s"
| "isNegative NegZero = True"
| "isNegative (Finite q) = (q < 0)"

fun valueOf :: "number \<Rightarrow> rat" where
  "valueOf (Finite q) = q"
| "valueOf x = 0"

fun isZero :: "number \<Rightarrow> bool" where
  "isZero NegZero = True"
| "isZero (Finite q) = (q = 0)"
| "isZero x = False"

definition signedZero :: "bool \<Rightarrow> number" where
  "signedZero s = (if s then NegZero else Finite 0)"

text \<open>Unary minus, \<^verbatim>\<open>+\<close>, \<^verbatim>\<open>-\<close>, \<^verbatim>\<open>*\<close>, \<^verbatim>\<open>/\<close>, \<^verbatim>\<open>Math.abs\<close>, \<^verbatim>\<open><\<close> and \<^verbatim>\<open>==\<close>.\<close>

fun num_neg :: "number \<Rightarrow> number" where
  "num_neg NaN = NaN"
| "num_neg (Infinity s) = Infinity (\<not> s)"
| "num_neg NegZero = Finite 0"
| "num_neg (Finite q) = (if q = 0 then NegZero else Finite (- q))"

fun num_add :: "number \<Rightarrow> number \<Rightarrow> number" where
  "num_add NaN y = NaN"
| "num_add x NaN = NaN"
| "num_add (Infinity s) (Infinity s') = (if s = s' then Infinity s else NaN)"
| "num_add (Infinity s) y = Infinity s"
| "num_add x (Infinity s) = Infinity s"
| "num_add NegZero NegZero = NegZero"
| "num_add x y = roundToDouble (valueOf x + valueOf y)"

definition num_sub :: "number \<Rightarrow> number \<Rightarrow> number" where
  "num_sub x y = num_add x (num_neg y)"

fun num_mul :: "number \<Rightarrow> number \<Rightarrow> number" where
  "num_mul NaN y = NaN"
| "num_mul x NaN = NaN"
| "num_mul (Infinity s) y = (if isZero y then NaN else Infinity (s \<noteq> isNegative y))"
| "num_mul x (Infinity s) = (if isZero x then NaN else Infinity (isNegative x \<noteq> s))"
| "num_mul x y =
     (if isZero x \<or> isZero y then signedZero (isNegative x \<noteq> isNegative y)
      else roundToDouble (valueOf x * valueOf y))"

fun num_div :: "number \<Rightarrow> number \<Rightarrow> number" where
  "num_div NaN y = NaN"
| "num_div x NaN = NaN"
| "num_div (Infinity s) (Infinity s') = NaN"
| "num_div (Infinity s) y = Infinity (s \<noteq> isNegative y)"
| "num_div x (Infinity s) = signedZero (isNegative x \<noteq> s)"
| "num_div x y =
     (if isZero y then (if isZero x then NaN else Infinity (isNegative x \<noteq> isNegative y))
      else if isZero x then signedZero (isNegative x \<noteq> isNegative y)
      else roundToDouble (valueOf x / valueOf y))"

fun Math_abs :: "number \<Rightarrow> number" where
  "Math_abs NaN = NaN"
| "Math_abs (Infinity s) = Infinity False"
| "Math_abs NegZero = Finite 0"
| "Math_abs (Finite q) = Finite \<bar>q\<bar>"

fun num_lt :: "number \<Rightarrow> number \<Rightarrow> bool" where
  "num_lt NaN y = False"
| "num_lt x NaN = False"
| "num_lt (Infinity s) (Infinity s') = (s \<and> \<not> s')"
| "num_lt (Infinity s) y = s"
| "num_lt x (Infinity s) = (\<not> s)"
| "num_lt x y = (valueOf x < valueOf y)"


text \<open>
  \<^verbatim>\<open>Number.prototype.toString\<close> in base ten, which a template literal applies to a
  number: the shortest digit string \<open>s\<close> (of \<open>k\<close> digits, with a decimal exponent \<open>n\<close>)
  such that \<open>s * 10^(n - k)\<close> rounds to the number, the nearest to it when several of
  that length do; then positional notation when \<open>-6 < n \<le> 21\<close>, exponential notation
  otherwise. A double needs at most 17 digits.
\<close>

definition digitChar :: "int \<Rightarrow> char" where
  "digitChar d = ''0123456789'' ! nat d"

function intToString :: "int \<Rightarrow> string" where
  "intToString n =
     (if n < 10 then [digitChar n] else intToString (n div 10) @ [digitChar (n mod 10)])"
  by pat_completeness auto
termination
  by (relation "measure nat") (auto intro!: int_div_less_self)

fun roundingTo :: "rat \<Rightarrow> int \<Rightarrow> int list \<Rightarrow> int list" where
  "roundingTo q e [] = []"
| "roundingTo q e (s # ss) =
     (if roundToDouble (of_int s * pow 10 e) = Finite q then s # roundingTo q e ss
      else roundingTo q e ss)"

definition nearest :: "rat \<Rightarrow> int list" where
  "nearest x =
     (let lo = \<lfloor>x\<rfloor> in
      if of_int lo = x then [lo]
      else if x - of_int lo < of_int (lo + 1) - x then [lo, lo + 1]
      else if of_int (lo + 1) - x < x - of_int lo then [lo + 1, lo]
      else if even lo then [lo, lo + 1]
      else [lo + 1, lo])"

definition candidates :: "rat \<Rightarrow> int \<Rightarrow> (int \<times> int) list" where
  "candidates q k =
     (let n = floorLog 10 q + 1
      in map (\<lambda>s. if s = 10 ^ nat k then (10 ^ nat (k - 1), n + 1) else (s, n))
           (roundingTo q (n - k) (nearest (q / pow 10 (n - k)))))"

fun shortest :: "rat \<Rightarrow> int list \<Rightarrow> (int \<times> int) option" where
  "shortest q [] = None"
| "shortest q (k # ks) = (case candidates q k of [] \<Rightarrow> shortest q ks | c # cs \<Rightarrow> Some c)"

definition formatDigits :: "string \<Rightarrow> int \<Rightarrow> string" where
  "formatDigits ds n =
     (let k = int (length ds) in
      if k \<le> n \<and> n \<le> 21 then ds @ replicate (nat (n - k)) CHR ''0''
      else if 0 < n \<and> n \<le> 21 then take (nat n) ds @ ''.'' @ drop (nat n) ds
      else if - 6 < n \<and> n \<le> 0 then ''0.'' @ replicate (nat (- n)) CHR ''0'' @ ds
      else
        (if k = 1 then ds else take 1 ds @ ''.'' @ drop 1 ds) @ ''e'' @
        (if n - 1 < 0 then ''-'' else ''+'') @ intToString \<bar>n - 1\<bar>)"

definition positiveToString :: "rat \<Rightarrow> string" where
  "positiveToString q =
     (case shortest q [1, 2, 3, 4, 5, 6, 7, 8, 9, 10, 11, 12, 13, 14, 15, 16, 17] of
        Some (s, n) \<Rightarrow> formatDigits (intToString s) n
      | None \<Rightarrow>
          formatDigits (intToString (roundTiesToEven (q / pow 10 (floorLog 10 q - 16))))
            (floorLog 10 q + 1))"

fun Number_toString :: "number \<Rightarrow> string" where
  "Number_toString NaN = ''NaN''"
| "Number_toString (Infinity s) = (if s then ''-Infinity'' else ''Infinity'')"
| "Number_toString NegZero = ''0''"
| "Number_toString (Finite q) =
     (if q = 0 then ''0''
      else if q < 0 then ''-'' @ positiveToString (- q)
      else positiveToString q)"


section \<open>The geometry engine\<close>

text \<open>The conversion of a number inside a template literal.\<close>

definition str :: "number \<Rightarrow> string" where
  "str v = Number_toString v"

text \<open>\<^verbatim>\<open>parts.join(sep)\<close> on an array of strings.\<close>

fun join :: "string list \<Rightarrow> string \<Rightarrow> string" where
  "join [] sep = []"
| "join [p] sep = p"
| "join (p # ps) sep = p @ sep @ join ps sep"


definition generateSmoothStepPath ::
  "number \<Rightarrow> number \<Rightarrow> number \<Rightarrow> number \<Rightarrow> number \<Rightarrow> string" where
  "generateSmoothStepPath sx sy tx ty radius =
     (let midX = num_div (num_add sx tx) (Finite 2);
          direction = (if num_lt sy ty then Finite 1 else Finite (- 1))
      in join
           [''M '' @ str sx @ '' '' @ str sy,
            ''H '' @ str (num_sub midX radius),
            ''Q '' @ str midX @ '','' @ str sy @ '' '' @ str midX @ '','' @
              str (num_add sy (num_mul direction radius)),
            ''V '' @ str (num_sub ty (num_mul direction radius)),
            ''Q '' @ str midX @ '','' @ str ty @ '' '' @ str (num_add midX radius) @ '','' @
              str ty,
            ''H '' @ str tx]
           '' '')"

text \<open>
  \<^verbatim>\<open>coords\<close> of \<^verbatim>\<open>useConnectionUtils\<close> is \<^verbatim>\<open>null\<close> or the pair of anchor points
  \<^verbatim>\<open>{source: {x, y}, target: {x, y}}\<close> computed from the rectangles of the two nodes.
  \<^verbatim>\<open>getArrowPath(size = 4, offset = 0)\<close> reads it; its parameter \<^verbatim>\<open>size\<close> is
  named \<open>arrowSize\<close> here, and the defaults are the caller's values \<open>Finite 4\<close> and
  \<open>Finite 0\<close>.
\<close>

record point =
  point_x :: number
  point_y :: number

record coords =
  coords_source :: point
  coords_target :: point

definition getArrowPath :: "coords option \<Rightarrow> number \<Rightarrow> number \<Rightarrow> string" where
  "getArrowPath coordsValue arrowSize offset =
     (case coordsValue of
        None \<Rightarrow> []
      | Some c \<Rightarrow>
          (let tx = num_sub (point_x (coords_target c)) offset;
               ty = point_y (coords_target c);
               ax = num_sub tx arrowSize;
               ay = num_sub ty (num_div arrowSize (Finite 2));
               bx = num_sub tx arrowSize;
               by' = num_add ty (num_div arrowSize (Finite 2))
           in ''M '' @ str tx @ '' '' @ str ty @ '' L '' @ str ax @ '' '' @ str ay @ '' L '' @
              str bx @ '' '' @ str by' @ '' Z''))"


declare digitCount.simps [simp del] intToString.simps [simp del]

section \<open>Properties of the object model\<close>

lemma set_Object_entries: "set (Object_entries obj) = set obj"
  by (auto simp: Object_entries_def)

lemma mset_Object_entries: "mset (Object_entries obj) = mset obj"
  by (simp add: Object_entries_def)

lemma distinct_keys_Object_entries:
  "distinct (map fst obj) \<Longrightarrow> distinct (map fst (Object_entries obj))"
proof -
  assume d: "distinct (map fst obj)"
  have "mset (map fst (Object_entries obj)) = mset (map fst obj)"
    by (simp add: mset_Object_entries)
  then show ?thesis
    using d mset_eq_imp_distinct_iff by blast
qed

lemma map_of_Object_entries:
  "distinct (map fst obj) \<Longrightarrow> map_of (Object_entries obj) = map_of obj"
  by (simp add: map_of_inject_set distinct_keys_Object_entries set_Object_entries)

lemma map_of_defineProperty: "map_of (defineProperty obj k v) = (map_of obj)(k \<mapsto> v)"
  by (induction obj) (auto simp: fun_eq_iff)

lemma keys_defineProperty:
  "set (map fst (defineProperty obj k v)) = insert k (set (map fst obj))"
  by (induction obj) auto

lemma distinct_keys_defineProperty:
  "distinct (map fst obj) \<Longrightarrow> distinct (map fst (defineProperty obj k v))"
  by (induction obj) (auto simp: keys_defineProperty simp flip: set_map)

lemma distinct_keys_deleteProperty:
  "distinct (map fst obj) \<Longrightarrow> distinct (map fst (deleteProperty obj k))"
  by (simp add: deleteProperty_def distinct_map_filter)

lemma map_of_deleteProperty: "map_of (deleteProperty obj k) = (map_of obj)(k := None)"
  by (induction obj) (auto simp: deleteProperty_def fun_eq_iff)

lemma Object_entries_filter_keys:
  "Object_entries (filter (\<lambda>p. P (fst p)) obj) = filter (\<lambda>p. P (fst p)) (Object_entries obj)"
  by (simp add: Object_entries_def filter_sort conj_commute)

lemma Object_entries_idem: "Object_entries (Object_entries obj) = Object_entries obj"
proof -
  let ?ix = "sort_key (\<lambda>p. decimalValue (fst p)) (filter (\<lambda>p. isArrayIndex (fst p)) obj)"
  let ?rest = "filter (\<lambda>p. \<not> isArrayIndex (fst p)) obj"
  have a: "filter (\<lambda>p. isArrayIndex (fst p)) (?ix @ ?rest) = ?ix"
    by (auto simp: filter_empty_conv)
  have b: "filter (\<lambda>p. \<not> isArrayIndex (fst p)) (?ix @ ?rest) = ?rest"
    by (auto simp: filter_empty_conv)
  have c: "sort_key (\<lambda>p. decimalValue (fst p)) ?ix = ?ix"
    by (rule sort_key_id_if_sorted) simp
  show ?thesis
    unfolding Object_entries_def a b c ..
qed

lemma Object_entries_no_index:
  "list_all (\<lambda>p. \<not> isArrayIndex (fst p)) obj \<Longrightarrow> Object_entries obj = obj"
  by (simp add: Object_entries_def list_all_iff filter_empty_conv)

lemma map_insort_key:
  "map f (insort_key (\<lambda>x. g (f x)) a xs) = insort_key g (f a) (map f xs)"
  by (induction xs) auto

lemma map_sort_key: "map f (sort_key (\<lambda>x. g (f x)) xs) = sort_key g (map f xs)"
  by (induction xs) (auto simp: map_insort_key)

lemma Object_keys_order:
  "Object_keys obj =
     sort_key decimalValue (filter isArrayIndex (map fst obj)) @
     filter (\<lambda>k. \<not> isArrayIndex k) (map fst obj)"
  by (simp add: Object_keys_def Object_entries_def map_sort_key filter_map comp_def)

lemma omit_single: "omit obj [s] = filter (\<lambda>p. fst p \<noteq> s) (Object_entries obj)"
  by (simp add: omit_def deleteProperty_def spread_def)

lemma Object_entries_omit_single:
  "Object_entries (omit obj [s]) = filter (\<lambda>p. fst p \<noteq> s) (Object_entries obj)"
  by (simp add: omit_single Object_entries_filter_keys [of "\<lambda>k. k \<noteq> s"]
      Object_entries_idem)


section \<open>Properties of the store's commands\<close>

lemma distinct_keys_addConnection:
  "distinct (map fst (mapping st)) \<Longrightarrow> distinct (map fst (mapping (addConnection s t st)))"
  by (simp add: addConnection_def spread_def distinct_keys_defineProperty
      distinct_keys_Object_entries)

lemma distinct_keys_removeConnection:
  "distinct (map fst (mapping st)) \<Longrightarrow> distinct (map fst (mapping (removeConnection s st)))"
  by (simp add: removeConnection_def omit_single distinct_map_filter
      distinct_keys_Object_entries)

lemma distinct_keys_exec:
  "distinct (map fst (mapping st)) \<Longrightarrow> distinct (map fst (mapping (exec c st)))"
  by (cases c)
    (simp_all add: distinct_keys_addConnection distinct_keys_removeConnection
      startConnection_def endConnection_def cancelConnection_def Let_def
      split: option.split)

lemma distinct_keys_run:
  "distinct (map fst (mapping st)) \<Longrightarrow> distinct (map fst (mapping (run cs st)))"
  by (induction cs arbitrary: st) (simp_all add: distinct_keys_exec)

lemma getProperty_addConnection:
  "distinct (map fst (mapping st)) \<Longrightarrow>
   getProperty (mapping (addConnection s t st)) = (getProperty (mapping st))(s \<mapsto> t)"
  by (simp add: fun_eq_iff getProperty_def addConnection_def spread_def
      map_of_defineProperty map_of_Object_entries)

lemma getProperty_removeConnection:
  "distinct (map fst (mapping st)) \<Longrightarrow>
   getProperty (mapping (removeConnection s st)) = (getProperty (mapping st))(s := None)"
proof -
  assume d: "distinct (map fst (mapping st))"
  have "omit (mapping st) [s] = deleteProperty (Object_entries (mapping st)) s"
    by (simp add: omit_def spread_def)
  then show ?thesis
    using d
    by (simp add: fun_eq_iff getProperty_def removeConnection_def map_of_deleteProperty
        map_of_Object_entries)
qed

lemma endConnection_commits:
  "dragSource st = Some d \<Longrightarrow> d \<noteq> [] \<Longrightarrow>
   mapping (endConnection t st) = mapping (addConnection d t st)"
  by (simp add: endConnection_def addConnection_def)

lemma endConnection_resets:
  "isDragging (endConnection t st) = False \<and> dragSource (endConnection t st) = None"
  by (simp add: endConnection_def Let_def)

lemma start_end_commits:
  "s \<noteq> [] \<Longrightarrow> distinct (map fst (mapping st)) \<Longrightarrow>
   getProperty (mapping (endConnection t (startConnection s st))) =
     (getProperty (mapping st))(s \<mapsto> t)"
proof -
  assume s: "s \<noteq> []" and d: "distinct (map fst (mapping st))"
  have "mapping (endConnection t (startConnection s st)) = mapping (addConnection s t st)"
    using s by (simp add: endConnection_def startConnection_def addConnection_def)
  then show ?thesis
    using d by (simp add: getProperty_addConnection)
qed

lemma drag_invariant_exec:
  "(dragSource st \<noteq> None \<longrightarrow> isDragging st) \<Longrightarrow>
   (dragSource (exec c st) \<noteq> None \<longrightarrow> isDragging (exec c st))"
  by (cases c)
    (simp_all add: addConnection_def removeConnection_def startConnection_def
      endConnection_def cancelConnection_def Let_def)

lemma drag_invariant_run:
  "(dragSource st \<noteq> None \<longrightarrow> isDragging st) \<Longrightarrow>
   (dragSource (run cs st) \<noteq> None \<longrightarrow> isDragging (run cs st))"
proof (induction cs arbitrary: st)
  case Nil
  then show ?case by simp
next
  case (Cons c cs)
  from Cons.prems have "dragSource (exec c st) \<noteq> None \<longrightarrow> isDragging (exec c st)"
    by (rule drag_invariant_exec)
  then show ?case
    using Cons.IH [of "exec c st"] by simp
qed

lemma hasConnection_Source_iff:
  "hasConnection x Source st \<longleftrightarrow> x \<in> dom (getProperty (mapping st))"
proof -
  have "set (Object_keys (mapping st)) = fst ` set (mapping st)"
    by (simp add: Object_keys_def set_Object_entries)
  moreover have "dom (getProperty (mapping st)) = fst ` set (mapping st)"
    unfolding getProperty_def by (rule dom_map_of_conv_image_fst)
  ultimately show ?thesis
    by (simp add: hasConnection_def array_includes_def)
qed

lemma hasConnection_Target_iff:
  "distinct (map fst (mapping st)) \<Longrightarrow>
   hasConnection x Target st \<longleftrightarrow> x \<in> ran (getProperty (mapping st))"
proof -
  assume d: "distinct (map fst (mapping st))"
  have "set (Object_values (mapping st)) = snd ` set (mapping st)"
    by (simp add: Object_values_def set_Object_entries)
  moreover have "ran (getProperty (mapping st)) = snd ` set (mapping st)"
    unfolding getProperty_def using d by (rule ran_distinct)
  ultimately show ?thesis
    by (simp add: hasConnection_def array_includes_def)
qed

lemma connections_sources: "map source (connections st) = Object_keys (mapping st)"
  by (simp add: connections_def Object_keys_def split_def comp_def)

lemma connections_pairs:
  "map (\<lambda>c. (source c, target c)) (connections st) = Object_entries (mapping st)"
  by (simp add: connections_def split_def comp_def)



section \<open>Properties of the numbers and of the path generators\<close>

lemma num_neg_involution: "num_neg (num_neg v) = v"
  by (cases v) auto



lemma pow_nonzero: "b \<noteq> 0 \<Longrightarrow> pow b e \<noteq> 0"
  by (simp add: pow_def)

lemma roundToDouble_minus:
  assumes "r \<noteq> 0"
  shows "roundToDouble (- r) = num_neg (roundToDouble r)"
proof -
  define e where "e = max (floorLog 2 \<bar>r\<bar> - 52) (- 1074)"
  define m where "m = roundTiesToEven (\<bar>r\<bar> / pow 2 e)"
  define big where "big = (1025 \<le> digitCount 2 m + e)"
  have pos: "roundToDouble r =
      (if m = 0 then (if r < 0 then NegZero else Finite 0)
       else if big then Infinity (r < 0)
       else Finite (sgn r * of_int m * pow 2 e))"
    using assms unfolding roundToDouble_def Let_def e_def m_def big_def by simp
  have neg: "roundToDouble (- r) =
      (if m = 0 then (if - r < 0 then NegZero else Finite 0)
       else if big then Infinity (- r < 0)
       else Finite (sgn (- r) * of_int m * pow 2 e))"
    using assms unfolding roundToDouble_def Let_def e_def m_def big_def by simp
  have p: "pow 2 e \<noteq> 0"
    by (rule pow_nonzero) simp
  show ?thesis
  proof (cases "m = 0")
    case True
    with assms show ?thesis
      unfolding pos neg by (cases "r < 0") auto
  next
    case False
    show ?thesis
    proof (cases big)
      case True
      with False assms show ?thesis
        unfolding pos neg by auto
    next
      case nb: False
      have "sgn r * of_int m * pow 2 e \<noteq> 0"
        using assms False p by (simp add: sgn_if)
      with False nb show ?thesis
        unfolding pos neg by (simp add: sgn_minus)
    qed
  qed
qed

lemma num_mul_one: "isDouble v \<Longrightarrow> num_mul (Finite 1) v = v"
  by (cases v) (auto simp: isDouble_def signedZero_def)

lemma num_mul_minus_one: "isDouble v \<Longrightarrow> num_mul (Finite (- 1)) v = num_neg v"
  by (cases v) (auto simp: isDouble_def signedZero_def roundToDouble_minus)





lemma Math_abs_not_negative: "\<not> isNegative (Math_abs v)"
  by (cases v) auto







lemma generateSmoothStepPath_unfold:
  "generateSmoothStepPath sx sy tx ty radius =
     (let midX = num_div (num_add sx tx) (Finite 2);
          turn = num_mul (if num_lt sy ty then Finite 1 else Finite (- 1)) radius
      in ''M '' @ str sx @ '' '' @ str sy @
         '' H '' @ str (num_sub midX radius) @
         '' Q '' @ str midX @ '','' @ str sy @ '' '' @ str midX @ '','' @ str (num_add sy turn) @
         '' V '' @ str (num_sub ty turn) @
         '' Q '' @ str midX @ '','' @ str ty @ '' '' @ str (num_add midX radius) @ '','' @ str ty @
         '' H '' @ str tx)"
  by (simp add: generateSmoothStepPath_def Let_def)

lemma getArrowPath_unfold:
  "getArrowPath (Some c) arrowSize offset =
     ''M '' @ str (num_sub (point_x (coords_target c)) offset) @ '' '' @
       str (point_y (coords_target c)) @
     '' L '' @ str (num_sub (num_sub (point_x (coords_target c)) offset) arrowSize) @ '' '' @
       str (num_sub (point_y (coords_target c)) (num_div arrowSize (Finite 2))) @
     '' L '' @ str (num_sub (num_sub (point_x (coords_target c)) offset) arrowSize) @ '' '' @
       str (num_add (point_y (coords_target c)) (num_div arrowSize (Finite 2))) @
     '' Z''"
  by (simp add: getArrowPath_def Let_def)

text \<open>The model on values whose behaviour in JavaScript is well known.\<close>

lemma roundToDouble_examples:
  "roundToDouble 9007199254740993 = Finite 9007199254740992"
  "roundToDouble (1 / 10) = Finite (3602879701896397 / 36028797018963968)"
  "isDouble (Finite (1 / 2))"
  "\<not> isDouble (Finite (1 / 10))"
  by code_simp+

lemma Number_toString_examples:
  "Number_toString (roundToDouble (1 / 10)) = ''0.1''"
  "Number_toString (Finite (111 / 2)) = ''55.5''"
  "Number_toString (num_neg (Finite 0)) = ''0''"
  "Number_toString (num_div (Finite 1) (Finite 0)) = ''Infinity''"
  "Number_toString (roundToDouble (10 ^ 21)) = ''1e+21''"
  by code_simp+


section \<open>The claims about the store\<close>

text \<open>
  Claim C1: \<^verbatim>\<open>endConnection(t)\<close> while a drag is in progress commits the entry
  \<^verbatim>\<open>dragSource -> t\<close>, and always resets the drag state. The reset always happens
  (\<open>endConnection_resets\<close>), and the entry is committed for every non-empty drag source
  (\<open>endConnection_commits\<close>, \<open>start_end_commits\<close>). The guard of the code is a test of
  truthiness, though: after \<^verbatim>\<open>startConnection("")\<close> the store is dragging, with the
  empty string as its source, and \<^verbatim>\<open>endConnection("t")\<close> commits nothing.
\<close>

theorem endConnection_empty_dragSource:
  "isDragging (startConnection [] (createStore [])) \<and>
   dragSource (startConnection [] (createStore [])) = Some [] \<and>
   mapping (endConnection ''t'' (startConnection [] (createStore []))) = [] \<and>
   getProperty (mapping (endConnection ''t'' (startConnection [] (createStore [])))) [] = None"
  by (simp add: startConnection_def endConnection_def createStore_def getProperty_def)

text \<open>
  Claim C2, as stated: the order of \<^verbatim>\<open>connections\<close> is the order of insertion
  into the mapping. After \<^verbatim>\<open>addConnection("b", "x")\<close> and then
  \<^verbatim>\<open>addConnection("1", "y")\<close> on an empty mapping, the keys were created in the order
  \<^verbatim>\<open>b\<close>, \<^verbatim>\<open>1\<close>, and the connections are listed in the order \<^verbatim>\<open>1\<close>, \<^verbatim>\<open>b\<close>.
\<close>

theorem connections_order_counterexample:
  "map fst (mapping (addConnection ''1'' ''y'' (addConnection ''b'' ''x'' (createStore []))))
     = [''b'', ''1''] \<and>
   map source (connections (addConnection ''1'' ''y'' (addConnection ''b'' ''x'' (createStore []))))
     = [''1'', ''b'']"
  by (simp add: addConnection_def createStore_def spread_def Object_entries_def
      connections_def isArrayIndex_def isDigit_def decimalValue_def digitValue_def)

text \<open>
  Claim C2, amended: \<^verbatim>\<open>connections\<close> is computed from the mapping alone and holds
  exactly one view per entry of the mapping, each with the id
  \<^verbatim>\<open>`${source}->${target}`\<close>. Its order is that of \<^verbatim>\<open>Object.entries\<close>: the sources
  that are array indices first, in ascending numeric order, then the other sources in
  order of insertion. When no source is an array index, the list follows the order of
  insertion.
\<close>

theorem connections_of_mapping:
  "mset (connections st) =
     image_mset (\<lambda>p. \<lparr>conn_id = fst p @ ''->'' @ snd p, source = fst p, target = snd p\<rparr>)
       (mset (mapping st)) \<and>
   (\<forall>c \<in> set (connections st). conn_id c = source c @ ''->'' @ target c) \<and>
   map source (connections st) =
     sort_key decimalValue (filter isArrayIndex (map fst (mapping st))) @
     filter (\<lambda>k. \<not> isArrayIndex k) (map fst (mapping st)) \<and>
   (list_all (\<lambda>k. \<not> isArrayIndex k) (map fst (mapping st)) \<longrightarrow>
      map (\<lambda>c. (source c, target c)) (connections st) = mapping st)"
proof -
  have a: "mset (connections st) =
     image_mset (\<lambda>p. \<lparr>conn_id = fst p @ ''->'' @ snd p, source = fst p, target = snd p\<rparr>)
       (mset (mapping st))"
    by (simp add: connections_def split_def mset_Object_entries)
  have b: "\<forall>c \<in> set (connections st). conn_id c = source c @ ''->'' @ target c"
    by (auto simp: connections_def)
  have c: "map source (connections st) =
     sort_key decimalValue (filter isArrayIndex (map fst (mapping st))) @
     filter (\<lambda>k. \<not> isArrayIndex k) (map fst (mapping st))"
    by (simp only: connections_sources Object_keys_order)
  have d: "map (\<lambda>c. (source c, target c)) (connections st) = mapping st"
    if "list_all (\<lambda>k. \<not> isArrayIndex k) (map fst (mapping st))"
  proof -
    from that have "list_all (\<lambda>p. \<not> isArrayIndex (fst p)) (mapping st)"
      by (simp add: list_all_iff)
    then show ?thesis
      by (simp add: connections_pairs Object_entries_no_index)
  qed
  from a b c d show ?thesis
    by blast
qed

text \<open>The theorem at a concrete store.\<close>

theorem connections_of_mapping_witness:
  "list_all (\<lambda>k. \<not> isArrayIndex k) (map fst [(''france'', ''paris''), (''spain'', ''madrid'')]) \<and>
   map (\<lambda>c. (source c, target c))
     (connections (createStore [(''france'', ''paris''), (''spain'', ''madrid'')])) =
   [(''france'', ''paris''), (''spain'', ''madrid'')] \<and>
   map conn_id (connections (createStore [(''france'', ''paris''), (''spain'', ''madrid'')])) =
   [''france->paris'', ''spain->madrid'']"
proof -
  have h: "list_all (\<lambda>k. \<not> isArrayIndex k)
      (map fst [(''france'', ''paris''), (''spain'', ''madrid'')])"
    by (simp add: isArrayIndex_def isDigit_def)
  show ?thesis
    using h connections_of_mapping [of "createStore [(''france'', ''paris''), (''spain'', ''madrid'')]"]
    by (simp add: createStore_def connections_def Object_entries_def isArrayIndex_def isDigit_def)
qed

text \<open>
  Claim C3: in every state reached from the initial state of a store (whatever the
  mapping it was created with) by a sequence of \<^verbatim>\<open>addConnection\<close>,
  \<^verbatim>\<open>removeConnection\<close>, \<^verbatim>\<open>startConnection\<close>, \<^verbatim>\<open>endConnection\<close> and
  \<^verbatim>\<open>cancelConnection\<close>, \<^verbatim>\<open>dragSource\<close> is non-null only while
  \<^verbatim>\<open>isDragging\<close> is true.
\<close>

theorem drag_state_invariant:
  "dragSource (run cs (createStore m)) \<noteq> None \<longrightarrow> isDragging (run cs (createStore m))"
  by (rule drag_invariant_run) (simp add: createStore_def)

text \<open>The theorem at a concrete store.\<close>

theorem drag_state_invariant_witness:
  "dragSource (run [AddConnection ''uk'' ''london'', StartConnection ''france'']
       (createStore [])) \<noteq> None \<and>
   isDragging (run [AddConnection ''uk'' ''london'', StartConnection ''france'']
       (createStore []))"
  using drag_state_invariant
    [of "[AddConnection ''uk'' ''london'', StartConnection ''france'']" "[]"]
  by (simp add: startConnection_def)

text \<open>
  Claim C4: after any sequence of commands (the sequences of \<^verbatim>\<open>addConnection\<close> and
  \<^verbatim>\<open>removeConnection\<close> among them) on a store created with a mapping \<open>m\<close>,
  \<^verbatim>\<open>hasConnection(x, "source")\<close> is true exactly when \<open>x\<close> is a key of the current
  mapping, and \<^verbatim>\<open>hasConnection(x, "target")\<close> exactly when \<open>x\<close> is a value of it.
  The keys of a JavaScript object are distinct, which is the hypothesis on \<open>m\<close>.
\<close>

theorem hasConnection_membership:
  assumes "distinct (map fst m)"
  shows "(hasConnection x Source (run cs (createStore m)) \<longleftrightarrow>
            x \<in> dom (getProperty (mapping (run cs (createStore m))))) \<and>
         (hasConnection x Target (run cs (createStore m)) \<longleftrightarrow>
            x \<in> ran (getProperty (mapping (run cs (createStore m)))))"
proof -
  have "distinct (map fst (mapping (createStore m)))"
    using assms by (simp add: createStore_def)
  then have "distinct (map fst (mapping (run cs (createStore m))))"
    by (rule distinct_keys_run)
  then show ?thesis
    by (simp add: hasConnection_Source_iff hasConnection_Target_iff)
qed

text \<open>The theorem at a concrete store.\<close>

theorem hasConnection_membership_witness:
  "distinct (map fst ([] :: js_object)) \<and>
   ''spain'' \<in> dom (getProperty (mapping
      (run [AddConnection ''france'' ''paris'', AddConnection ''spain'' ''madrid'',
            RemoveConnection ''france''] (createStore [])))) \<and>
   ''paris'' \<notin> ran (getProperty (mapping
      (run [AddConnection ''france'' ''paris'', AddConnection ''spain'' ''madrid'',
            RemoveConnection ''france''] (createStore []))))"
proof -
  let ?st = "run [AddConnection ''france'' ''paris'', AddConnection ''spain'' ''madrid'',
            RemoveConnection ''france''] (createStore [])"
  have d: "distinct (map fst ([] :: js_object))"
    by simp
  have s: "hasConnection ''spain'' Source ?st"
    by code_simp
  have t: "\<not> hasConnection ''paris'' Target ?st"
    by code_simp
  show ?thesis
    using d s t
      hasConnection_membership [OF d, where x = "''spain''" and cs = "[AddConnection ''france'' ''paris'', AddConnection ''spain'' ''madrid'',
            RemoveConnection ''france'']"]
      hasConnection_membership [OF d, where x = "''paris''" and cs = "[AddConnection ''france'' ''paris'', AddConnection ''spain'' ''madrid'',
            RemoveConnection ''france'']"]
    by blast
qed

text \<open>
  Claim C8: \<^verbatim>\<open>startConnection(s)\<close> followed by \<^verbatim>\<open>cancelConnection()\<close> leaves the
  mapping as it was and the drag state idle; \<^verbatim>\<open>cancelConnection\<close> alone clears the
  drag state, whatever it was, and commits nothing.
\<close>

theorem start_then_cancel:
  "mapping (cancelConnection (startConnection s st)) = mapping st \<and>
   isDragging (cancelConnection (startConnection s st)) = False \<and>
   dragSource (cancelConnection (startConnection s st)) = None \<and>
   mapping (cancelConnection st) = mapping st \<and>
   isDragging (cancelConnection st) = False \<and>
   dragSource (cancelConnection st) = None"
  by (simp add: cancelConnection_def startConnection_def)

text \<open>
  Claim C9: \<^verbatim>\<open>removeConnection(s)\<close> deletes the entry of \<open>s\<close> and keeps every other
  entry, in the same order; when \<open>s\<close> is not a key, the mapping has the same entries
  in the same order afterwards. The command is a total function of the store: it has
  no error branch. The mapping is assigned a fresh copy, so "the same mapping" is
  stated on what can be observed of an object: its entries in enumeration order,
  and the value of each property.
\<close>

theorem removeConnection_deletes_or_noop:
  assumes "distinct (map fst (mapping st))"
  shows "Object_entries (mapping (removeConnection s st)) =
           filter (\<lambda>p. fst p \<noteq> s) (Object_entries (mapping st)) \<and>
         getProperty (mapping (removeConnection s st)) = (getProperty (mapping st))(s := None) \<and>
         (hasConnection s Source st \<longrightarrow> \<not> hasConnection s Source (removeConnection s st)) \<and>
         (\<not> hasConnection s Source st \<longrightarrow>
            Object_entries (mapping (removeConnection s st)) = Object_entries (mapping st) \<and>
            getProperty (mapping (removeConnection s st)) = getProperty (mapping st))"
proof -
  have a: "Object_entries (mapping (removeConnection s st)) =
           filter (\<lambda>p. fst p \<noteq> s) (Object_entries (mapping st))"
    by (simp add: removeConnection_def Object_entries_omit_single)
  have b: "getProperty (mapping (removeConnection s st)) = (getProperty (mapping st))(s := None)"
    using assms by (rule getProperty_removeConnection)
  have c: "\<not> hasConnection s Source (removeConnection s st)"
    by (simp add: hasConnection_Source_iff b)
  have d: "Object_entries (mapping (removeConnection s st)) = Object_entries (mapping st)"
    if "\<not> hasConnection s Source st"
  proof -
    from that have "\<forall>p \<in> set (Object_entries (mapping st)). fst p \<noteq> s"
      by (auto simp: hasConnection_def array_includes_def Object_keys_def)
    then show ?thesis
      by (simp add: a)
  qed
  have e: "getProperty (mapping (removeConnection s st)) = getProperty (mapping st)"
    if "\<not> hasConnection s Source st"
  proof -
    from that have "getProperty (mapping st) s = None"
      by (auto simp: hasConnection_Source_iff)
    then show ?thesis
      by (simp add: b fun_eq_iff)
  qed
  show ?thesis
  proof (intro conjI impI)
    show "Object_entries (mapping (removeConnection s st)) =
           filter (\<lambda>p. fst p \<noteq> s) (Object_entries (mapping st))"
      by (rule a)
    show "getProperty (mapping (removeConnection s st)) = (getProperty (mapping st))(s := None)"
      by (rule b)
    show "\<not> hasConnection s Source (removeConnection s st)"
      by (rule c)
    show "Object_entries (mapping (removeConnection s st)) = Object_entries (mapping st)"
      if "\<not> hasConnection s Source st"
      using that by (rule d)
    show "getProperty (mapping (removeConnection s st)) = getProperty (mapping st)"
      if "\<not> hasConnection s Source st"
      using that by (rule e)
  qed
qed

text \<open>The theorem at a concrete store.\<close>

theorem removeConnection_deletes_or_noop_witness:
  "distinct (map fst (mapping (createStore [(''france'', ''paris''), (''spain'', ''madrid'')]))) \<and>
   hasConnection ''france'' Source (createStore [(''france'', ''paris''), (''spain'', ''madrid'')]) \<and>
   \<not> hasConnection ''france'' Source
     (removeConnection ''france'' (createStore [(''france'', ''paris''), (''spain'', ''madrid'')])) \<and>
   \<not> hasConnection ''italy'' Source (createStore [(''france'', ''paris''), (''spain'', ''madrid'')]) \<and>
   Object_entries (mapping
     (removeConnection ''italy'' (createStore [(''france'', ''paris''), (''spain'', ''madrid'')]))) =
   Object_entries (mapping (createStore [(''france'', ''paris''), (''spain'', ''madrid'')]))"
proof -
  let ?st = "createStore [(''france'', ''paris''), (''spain'', ''madrid'')]"
  have d: "distinct (map fst (mapping ?st))"
    by (simp add: createStore_def)
  have h1: "hasConnection ''france'' Source ?st"
    by (simp add: hasConnection_def array_includes_def Object_keys_def Object_entries_def
        createStore_def isArrayIndex_def isDigit_def)
  have h2: "\<not> hasConnection ''italy'' Source ?st"
    by (simp add: hasConnection_def array_includes_def Object_keys_def Object_entries_def
        createStore_def isArrayIndex_def isDigit_def)
  show ?thesis
    using d h1 h2
      removeConnection_deletes_or_noop [OF d, where s = "''france''"]
      removeConnection_deletes_or_noop [OF d, where s = "''italy''"]
    by blast
qed

text \<open>
  Claim C10: \<^verbatim>\<open>startConnection\<close> and \<^verbatim>\<open>cancelConnection\<close> leave the mapping
  untouched; \<^verbatim>\<open>addConnection\<close> and \<^verbatim>\<open>removeConnection\<close> leave
  \<^verbatim>\<open>isDragging\<close> and \<^verbatim>\<open>dragSource\<close> untouched.
\<close>

theorem frame_mapping_and_drag_state:
  "mapping (startConnection s st) = mapping st \<and>
   mapping (cancelConnection st) = mapping st \<and>
   isDragging (addConnection s t st) = isDragging st \<and>
   dragSource (addConnection s t st) = dragSource st \<and>
   isDragging (removeConnection s st) = isDragging st \<and>
   dragSource (removeConnection s st) = dragSource st"
  by (simp add: startConnection_def cancelConnection_def addConnection_def
      removeConnection_def)


section \<open>The claims about the geometry engine\<close>



text \<open>
  Claim C6: for all coordinates and every radius, the path of
  \<^verbatim>\<open>generateSmoothStepPath\<close> is a horizontal run from the source to \<open>midX - radius\<close>,
  a curve through the corner \<open>(midX, sy)\<close> to the point \<open>radius\<close> below it when
  \<open>sy < ty\<close> (the vertical axis of SVG points down) and \<open>radius\<close> above it otherwise,
  a vertical run to \<open>radius\<close> before the level of the target, a mirrored curve through
  the corner \<open>(midX, ty)\<close> to \<open>(midX + radius, ty)\<close>, and a horizontal run to \<open>tx\<close>;
  \<^verbatim>\<open>generateSmoothStepPath(10, 20, 100, 80, 5)\<close> is
  \<^verbatim>\<open>"M 10 20 H 50 Q 55,20 55,25 V 75 Q 55,80 60,80 H 100"\<close>. The radius is a double, as
  every number of a program is.
\<close>

theorem generateSmoothStepPath_segments:
  assumes "isDouble radius"
  shows "generateSmoothStepPath sx sy tx ty radius =
     (let midX = num_div (num_add sx tx) (Finite 2)
      in ''M '' @ str sx @ '' '' @ str sy @
         '' H '' @ str (num_sub midX radius) @
         '' Q '' @ str midX @ '','' @ str sy @ '' '' @ str midX @ '','' @
           str (if num_lt sy ty then num_add sy radius else num_sub sy radius) @
         '' V '' @ str (if num_lt sy ty then num_sub ty radius else num_add ty radius) @
         '' Q '' @ str midX @ '','' @ str ty @ '' '' @ str (num_add midX radius) @ '','' @ str ty @
         '' H '' @ str tx) \<and>
   generateSmoothStepPath (Finite 10) (Finite 20) (Finite 100) (Finite 80) (Finite 5) =
     ''M 10 20 H 50 Q 55,20 55,25 V 75 Q 55,80 60,80 H 100''"
proof (rule conjI)
  have down: "num_mul (Finite 1) radius = radius"
    using assms by (rule num_mul_one)
  have up: "num_mul (Finite (- 1)) radius = num_neg radius"
    using assms by (rule num_mul_minus_one)
  have bk: "num_sub ty (num_neg radius) = num_add ty radius"
    by (simp add: num_sub_def num_neg_involution)
  have fwd: "num_add sy (num_neg radius) = num_sub sy radius"
    by (simp add: num_sub_def)
  show "generateSmoothStepPath sx sy tx ty radius =
     (let midX = num_div (num_add sx tx) (Finite 2)
      in ''M '' @ str sx @ '' '' @ str sy @
         '' H '' @ str (num_sub midX radius) @
         '' Q '' @ str midX @ '','' @ str sy @ '' '' @ str midX @ '','' @
           str (if num_lt sy ty then num_add sy radius else num_sub sy radius) @
         '' V '' @ str (if num_lt sy ty then num_sub ty radius else num_add ty radius) @
         '' Q '' @ str midX @ '','' @ str ty @ '' '' @ str (num_add midX radius) @ '','' @ str ty @
         '' H '' @ str tx)"
    unfolding generateSmoothStepPath_unfold Let_def
    by (cases "num_lt sy ty") (simp_all only: if_True if_False down up bk fwd)
  show "generateSmoothStepPath (Finite 10) (Finite 20) (Finite 100) (Finite 80) (Finite 5) =
     ''M 10 20 H 50 Q 55,20 55,25 V 75 Q 55,80 60,80 H 100''"
    by code_simp
qed

text \<open>The theorem on a connection that goes up.\<close>

theorem generateSmoothStepPath_segments_witness:
  "isDouble (Finite 5) \<and>
   generateSmoothStepPath (Finite 10) (Finite 80) (Finite 100) (Finite 20) (Finite 5) =
     ''M 10 80 H 50 Q 55,80 55,75 V 25 Q 55,20 60,20 H 100''"
proof -
  have r: "isDouble (Finite 5)"
    by code_simp
  have lt: "num_lt (Finite 80) (Finite 20) = False"
    by simp
  have m: "num_div (num_add (Finite 10) (Finite 100)) (Finite 2) = Finite 55"
    by code_simp
  have a: "num_sub (Finite 55) (Finite 5) = Finite 50" "num_sub (Finite 80) (Finite 5) = Finite 75"
    "num_add (Finite 20) (Finite 5) = Finite 25" "num_add (Finite 55) (Finite 5) = Finite 60"
    by code_simp+
  have s: "str (Finite 10) = ''10''" "str (Finite 80) = ''80''" "str (Finite 50) = ''50''"
    "str (Finite 55) = ''55''" "str (Finite 75) = ''75''" "str (Finite 25) = ''25''"
    "str (Finite 20) = ''20''" "str (Finite 60) = ''60''" "str (Finite 100) = ''100''"
    by code_simp+
  show ?thesis
    using r generateSmoothStepPath_segments
      [OF r, of "Finite 10" "Finite 80" "Finite 100" "Finite 20"]
    by (simp only: Let_def lt if_False m a s) simp
qed

text \<open>
  Claim C7: when the coordinates are there, the path of \<^verbatim>\<open>getArrowPath(size, offset)\<close>
  is the closed triangle with its tip at \<open>(targetX - offset, targetY)\<close> and its two other
  corners at the horizontal coordinate \<open>tip.x - size\<close>, \<open>size / 2\<close> above and below
  \<open>targetY\<close>; with size 4 and offset 0 at the target \<open>(20, 20)\<close> the tip is \<open>(20, 20)\<close>
  and the corners are \<open>(16, 18)\<close> and \<open>(16, 22)\<close>.
\<close>

theorem getArrowPath_triangle:
  assumes "coords_target c = \<lparr>point_x = targetX, point_y = targetY\<rparr>"
  shows "getArrowPath (Some c) arrowSize offset =
     ''M '' @ str (num_sub targetX offset) @ '' '' @ str targetY @
     '' L '' @ str (num_sub (num_sub targetX offset) arrowSize) @ '' '' @
       str (num_sub targetY (num_div arrowSize (Finite 2))) @
     '' L '' @ str (num_sub (num_sub targetX offset) arrowSize) @ '' '' @
       str (num_add targetY (num_div arrowSize (Finite 2))) @
     '' Z'' \<and>
   getArrowPath
     (Some \<lparr>coords_source = \<lparr>point_x = Finite 0, point_y = Finite 0\<rparr>,
            coords_target = \<lparr>point_x = Finite 20, point_y = Finite 20\<rparr>\<rparr>)
     (Finite 4) (Finite 0) = ''M 20 20 L 16 18 L 16 22 Z''"
proof (rule conjI)
  show "getArrowPath (Some c) arrowSize offset =
     ''M '' @ str (num_sub targetX offset) @ '' '' @ str targetY @
     '' L '' @ str (num_sub (num_sub targetX offset) arrowSize) @ '' '' @
       str (num_sub targetY (num_div arrowSize (Finite 2))) @
     '' L '' @ str (num_sub (num_sub targetX offset) arrowSize) @ '' '' @
       str (num_add targetY (num_div arrowSize (Finite 2))) @
     '' Z''"
    by (simp add: getArrowPath_unfold assms)
  have a: "num_sub (Finite 20) (Finite 0) = Finite 20" "num_div (Finite 4) (Finite 2) = Finite 2"
    "num_sub (Finite 20) (Finite 4) = Finite 16" "num_sub (Finite 20) (Finite 2) = Finite 18"
    "num_add (Finite 20) (Finite 2) = Finite 22"
    by code_simp+
  have s: "str (Finite 20) = ''20''" "str (Finite 16) = ''16''" "str (Finite 18) = ''18''"
    "str (Finite 22) = ''22''"
    by code_simp+
  show "getArrowPath
     (Some \<lparr>coords_source = \<lparr>point_x = Finite 0, point_y = Finite 0\<rparr>,
            coords_target = \<lparr>point_x = Finite 20, point_y = Finite 20\<rparr>\<rparr>)
     (Finite 4) (Finite 0) = ''M 20 20 L 16 18 L 16 22 Z''"
    unfolding getArrowPath_unfold coords.simps point.simps
    by (simp only: a s) simp
qed

text \<open>The theorem on another arrow.\<close>

theorem getArrowPath_triangle_witness:
  "coords_target \<lparr>coords_source = \<lparr>point_x = Finite 3, point_y = Finite 7\<rparr>,
                  coords_target = \<lparr>point_x = Finite 30, point_y = Finite 40\<rparr>\<rparr> =
     \<lparr>point_x = Finite 30, point_y = Finite 40\<rparr> \<and>
   getArrowPath
     (Some \<lparr>coords_source = \<lparr>point_x = Finite 3, point_y = Finite 7\<rparr>,
            coords_target = \<lparr>point_x = Finite 30, point_y = Finite 40\<rparr>\<rparr>)
     (Finite 8) (Finite 2) = ''M 28 40 L 20 36 L 20 44 Z''"
proof -
  let ?c = "\<lparr>coords_source = \<lparr>point_x = Finite 3, point_y = Finite 7\<rparr>,
            coords_target = \<lparr>point_x = Finite 30, point_y = Finite 40\<rparr>\<rparr>"
  have t: "coords_target ?c = \<lparr>point_x = Finite 30, point_y = Finite 40\<rparr>"
    by simp
  have a: "num_sub (Finite 30) (Finite 2) = Finite 28" "num_div (Finite 8) (Finite 2) = Finite 4"
    "num_sub (Finite 28) (Finite 8) = Finite 20" "num_sub (Finite 40) (Finite 4) = Finite 36"
    "num_add (Finite 40) (Finite 4) = Finite 44"
    by code_simp+
  have s: "str (Finite 28) = ''28''" "str (Finite 40) = ''40''" "str (Finite 20) = ''20''"
    "str (Finite 36) = ''36''" "str (Finite 44) = ''44''"
    by code_simp+
  show ?thesis
    using t getArrowPath_triangle [OF t, of "Finite 8" "Finite 2"]
    by (simp only: a s) simp
qed

end
